theory Spec2Isabelle
  imports Main "HOL-Library.AList"
begin

section \<open>Values, objects and the heap\<close>

text \<open>
  The functions of \<^verbatim>\<open>src/index.ts\<close> work on JavaScript values. A value is a
  primitive or a reference to an object; objects live in a heap and are mutated in
  place, so two references to one object see each other's writes.

  An object has its own properties (string keys, in creation order), a prototype link
  and the flag that makes \<^verbatim>\<open>typeof\<close> answer \<^verbatim>\<open>"function"\<close>. The model covers ordinary,
  extensible objects whose properties are writable data properties: accessor
  properties, read-only properties, frozen objects and exotic objects (the
  \<^verbatim>\<open>length\<close> of arrays, proxies used as entities) are outside of it. Numbers are
  carried as integers: the code never computes with them.

  The heap is the list of all objects, an address is an index into it. Addresses
  are numbered so that the prototype of an object has a smaller address than the
  object itself: prototype chains of JavaScript are never cyclic, so such a
  numbering exists, and a fresh object, put at the end of the heap, keeps it.
  Address \<open>0\<close> holds \<^verbatim>\<open>Object.prototype\<close>.
\<close>

type_synonym addr = nat

datatype val = Undefined | Null | Bool bool | Num int | Str string | Ref addr

record obj =
  props :: "(string \<times> val) list"
  proto :: "addr option"
  callable :: bool

type_synonym heap = "obj list"

datatype error = TypeError string

definition object_prototype :: addr where
  "object_prototype = 0"

text \<open>The object literal \<^verbatim>\<open>{}\<close>.\<close>

definition new_object :: obj where
  "new_object = \<lparr>props = [], proto = Some object_prototype, callable = False\<rparr>"

text \<open>The operator \<^verbatim>\<open>typeof\<close>.\<close>

fun typeof :: "heap \<Rightarrow> val \<Rightarrow> string" where
  "typeof h Undefined = ''undefined''"
| "typeof h Null = ''object''"
| "typeof h (Bool b) = ''boolean''"
| "typeof h (Num n) = ''number''"
| "typeof h (Str s) = ''string''"
| "typeof h (Ref a) = (if callable (h ! a) then ''function'' else ''object'')"

text \<open>The loose comparison \<^verbatim>\<open>value == null\<close>: true of \<^verbatim>\<open>null\<close> and \<^verbatim>\<open>undefined\<close> only.\<close>

definition loose_null :: "val \<Rightarrow> bool" where
  "loose_null v \<longleftrightarrow> v = Null \<or> v = Undefined"

text \<open>
  The test \<^verbatim>\<open>typeof value === "object" && value != null\<close> of lines 142 and 254:
  the value is a reference to an object that is not callable.
\<close>

definition object_like :: "heap \<Rightarrow> val \<Rightarrow> bool" where
  "object_like h v \<longleftrightarrow> typeof h v = ''object'' \<and> \<not> loose_null v"

text \<open>
  \<^verbatim>\<open>safeCast\<close> is the identity, a cast of the type checker. Here it takes the
  address out of an object reference; the code applies it to nothing else.
\<close>

fun safeCast :: "val \<Rightarrow> addr" where
  "safeCast (Ref a) = a"

subsection \<open>Property lookup through the prototype chain\<close>

text \<open>
  The object itself, its prototype, the prototype's prototype and so on. A link
  is followed when it points to an older object; in a heap numbered as said
  above, every link does.
\<close>

function proto_chain :: "heap \<Rightarrow> addr \<Rightarrow> addr list" where
  "proto_chain h a =
     a # (case proto (h ! a) of
            None \<Rightarrow> []
          | Some p \<Rightarrow> if p < a then proto_chain h p else [])"
  by pat_completeness auto
termination
  by (relation "measure (\<lambda>(h, a). a)") auto

declare proto_chain.simps [simp del]

text \<open>The value of the first object of the chain that owns the key.\<close>

fun lookup_chain :: "heap \<Rightarrow> addr list \<Rightarrow> string \<Rightarrow> val option" where
  "lookup_chain h [] key = None"
| "lookup_chain h (a # as) key =
     (case map_of (props (h ! a)) key of
        Some v \<Rightarrow> Some v
      | None \<Rightarrow> lookup_chain h as key)"

definition get_property :: "heap \<Rightarrow> addr \<Rightarrow> string \<Rightarrow> val option" where
  "get_property h a key = lookup_chain h (proto_chain h a) key"

text \<open>\<^verbatim>\<open>key in object\<close>: the object or one of its prototypes has the property.\<close>

definition has_property :: "heap \<Rightarrow> addr \<Rightarrow> string \<Rightarrow> bool" where
  "has_property h a key \<longleftrightarrow> get_property h a key \<noteq> None"

text \<open>\<^verbatim>\<open>object[key]\<close> read: \<^verbatim>\<open>undefined\<close> when no object of the chain has the property.\<close>

definition get_value :: "heap \<Rightarrow> addr \<Rightarrow> string \<Rightarrow> val" where
  "get_value h a key = (case get_property h a key of None \<Rightarrow> Undefined | Some v \<Rightarrow> v)"

text \<open>
  \<^verbatim>\<open>object[key] = value\<close>: with writable data properties only, the assignment
  creates or updates the own property of the object it is applied to. An existing
  key keeps its position, a new key is added last. (JavaScript lists the keys
  that are array indices before the other keys; the keys an object already has
  keep their order among themselves there too.)
\<close>

definition put_value :: "heap \<Rightarrow> addr \<Rightarrow> string \<Rightarrow> val \<Rightarrow> heap" where
  "put_value h a key v = h[a := (h ! a)\<lparr>props := AList.update key v (props (h ! a))\<rparr>]"

section \<open>Selectors and \<^verbatim>\<open>nameof\<close>\<close>

text \<open>
  A property key is a string or a symbol. A selector is
  \<^verbatim>\<open>t => t.prop1.prop2.[...].propn\<close>, each access being plain (\<^verbatim>\<open>.\<close>, or
  \<^verbatim>\<open>[key]\<close>) or null-propagating (\<^verbatim>\<open>?.\<close>): the list of its accesses.
\<close>

datatype key = StringKey string | SymbolKey nat

datatype access = Dot key | OptDot key

type_synonym selector = "access list"

fun access_key :: "access \<Rightarrow> key" where
  "access_key (Dot k) = k"
| "access_key (OptDot k) = k"

fun is_string_key :: "key \<Rightarrow> bool" where
  "is_string_key (StringKey s) = True"
| "is_string_key (SymbolKey n) = False"

fun key_name :: "key \<Rightarrow> string" where
  "key_name (StringKey s) = s"

definition string_keys :: "selector \<Rightarrow> bool" where
  "string_keys sel = list_all (\<lambda>a. is_string_key (access_key a)) sel"

definition names :: "selector \<Rightarrow> string list" where
  "names sel = map (\<lambda>a. key_name (access_key a)) sel"

text \<open>
  The values a selector meets while it runs on the proxy: a proxy of the session
  (all of them share the one \<^verbatim>\<open>path\<close> array, the state), or \<^verbatim>\<open>undefined\<close>, the
  result of a chain that short-circuited.
\<close>

datatype sval = SProxy | SUndefined

text \<open>The \<^verbatim>\<open>get\<close> trap of \<^verbatim>\<open>proxyMagic\<close> (lines 18 to 25), on the array \<^verbatim>\<open>path\<close>.\<close>

definition proxyMagic_get :: "string list \<Rightarrow> key \<Rightarrow> (error + sval) \<times> string list" where
  "proxyMagic_get path name =
     (case name of
        StringKey s \<Rightarrow> (Inr SProxy, path @ [s])
      | SymbolKey n \<Rightarrow> (Inl (TypeError ''Entity contains a non-string key type.''), path))"

text \<open>
  One property access of the selector's body on the value \<open>t\<close>. On a proxy, the
  trap runs. On \<^verbatim>\<open>undefined\<close>, \<^verbatim>\<open>?.\<close> answers \<^verbatim>\<open>undefined\<close> for the rest of the chain and
  a plain access raises.
\<close>

fun apply_selector :: "selector \<Rightarrow> sval \<Rightarrow> string list \<Rightarrow> (error + sval) \<times> string list" where
  "apply_selector [] t path = (Inr t, path)"
| "apply_selector (Dot k # rest) t path =
     (case t of
        SUndefined \<Rightarrow> (Inl (TypeError ''Cannot read properties of undefined''), path)
      | SProxy \<Rightarrow>
          (case proxyMagic_get path k of
             (Inl e, path') \<Rightarrow> (Inl e, path')
           | (Inr t', path') \<Rightarrow> apply_selector rest t' path'))"
| "apply_selector (OptDot k # rest) t path =
     (case t of
        SUndefined \<Rightarrow> (Inr SUndefined, path)
      | SProxy \<Rightarrow>
          (case proxyMagic_get path k of
             (Inl e, path') \<Rightarrow> (Inl e, path')
           | (Inr t', path') \<Rightarrow> apply_selector rest t' path'))"

text \<open>
  \<^verbatim>\<open>nameof\<close> (lines 60 to 65): the array starts empty, the selector runs once on a
  proxy, the array is returned. An exception of the selector leaves \<^verbatim>\<open>nameof\<close>
  with it: the array, local to the call, is lost.
\<close>

definition nameof :: "selector \<Rightarrow> error + string list" where
  "nameof selector =
     (case apply_selector selector SProxy [] of
        (Inl e, path) \<Rightarrow> Inl e
      | (Inr t, path) \<Rightarrow> Inr path)"

section \<open>\<^verbatim>\<open>get\<close> and \<^verbatim>\<open>set\<close>\<close>

datatype selector_or_path = Selector selector | Path "string list"

text \<open>Line 139 and line 248.\<close>

fun normalize :: "selector_or_path \<Rightarrow> error + string list" where
  "normalize (Selector s) = nameof s"
| "normalize (Path p) = Inr p"

text \<open>The loop of \<^verbatim>\<open>get\<close> (lines 141 to 154) on the rest of the path.\<close>

fun get_loop :: "heap \<Rightarrow> val \<Rightarrow> string list \<Rightarrow> val" where
  "get_loop h output [] = output"
| "get_loop h output (key # path) =
     (if object_like h output then
        (let object = safeCast output in
         if has_property h object key then get_loop h (get_value h object key) path
         else Undefined)
      else Undefined)"

definition get :: "heap \<Rightarrow> addr \<Rightarrow> selector_or_path \<Rightarrow> error + val" where
  "get h entity selectorOrPath =
     (case normalize selectorOrPath of
        Inl e \<Rightarrow> Inl e
      | Inr path \<Rightarrow> Inr (get_loop h (Ref entity) path))"

text \<open>
  The message of line 261: a template literal prints the array \<^verbatim>\<open>path\<close> with its
  elements joined by commas.
\<close>

fun join :: "string list \<Rightarrow> string" where
  "join [] = []"
| "join [s] = s"
| "join (s # ss) = s @ '','' @ join ss"

definition conflict_message :: "string list \<Rightarrow> string" where
  "conflict_message path = ''Path ['' @ join path @ ''] conflicts with the entity structure.''"

text \<open>
  The body of the loop of \<^verbatim>\<open>set\<close> for an element that is not the last (lines 253
  to 262): the next container and the heap, or the error and the heap as it is
  then.
\<close>

definition descend :: "string list \<Rightarrow> heap \<Rightarrow> addr \<Rightarrow> string \<Rightarrow> (error + addr) \<times> heap" where
  "descend path h object key =
     (let value = get_value h object key in
      if object_like h value then (Inr (safeCast value), h)
      else if loose_null value then
        (let newValue = length h;
             h1 = h @ [new_object]
         in (Inr newValue, put_value h1 object key (Ref newValue)))
      else (Inl (TypeError (conflict_message path)), h))"

text \<open>
  The loop of \<^verbatim>\<open>set\<close> (lines 250 to 266) on the rest of the path; \<open>path\<close> is the
  whole path, for the message. The heap comes back also with an error: what was
  written before the \<^verbatim>\<open>throw\<close> stays written.
\<close>

fun set_loop :: "string list \<Rightarrow> heap \<Rightarrow> addr \<Rightarrow> string list \<Rightarrow> val \<Rightarrow> (error + unit) \<times> heap" where
  "set_loop path h object [] v = (Inr (), h)"
| "set_loop path h object [key] v = (Inr (), put_value h object key v)"
| "set_loop path h object (key # rest) v =
     (case descend path h object key of
        (Inl e, h') \<Rightarrow> (Inl e, h')
      | (Inr object', h') \<Rightarrow> set_loop path h' object' rest v)"

definition set_path :: "heap \<Rightarrow> addr \<Rightarrow> selector_or_path \<Rightarrow> val \<Rightarrow> (error + unit) \<times> heap" where
  "set_path h entity selectorOrPath v =
     (case normalize selectorOrPath of
        Inl e \<Rightarrow> (Inl e, h)
      | Inr path \<Rightarrow> set_loop path h entity path v)"


section \<open>The walk of \<^verbatim>\<open>set\<close>\<close>

text \<open>
  The iterations of the loop of \<^verbatim>\<open>set\<close> over elements that are not the last one:
  the container reached and the heap then, or the error of the step that raised.
\<close>

fun walk :: "string list \<Rightarrow> heap \<Rightarrow> addr \<Rightarrow> string list \<Rightarrow> (error + addr) \<times> heap" where
  "walk path h object [] = (Inr object, h)"
| "walk path h object (key # keys) =
     (case descend path h object key of
        (Inl e, h') \<Rightarrow> (Inl e, h')
      | (Inr object', h') \<Rightarrow> walk path h' object' keys)"





text \<open>The value of an own property of an object, if the object owns the key.\<close>

definition own :: "heap \<Rightarrow> addr \<Rightarrow> string \<Rightarrow> val option" where
  "own h a key = map_of (props (h ! a)) key"

section \<open>Example heaps\<close>

text \<open>
  \<^verbatim>\<open>Object.prototype\<close> with its method \<^verbatim>\<open>toString\<close>, a function, and the entity
  \<^verbatim>\<open>{}\<close> at address 2. The other methods of \<^verbatim>\<open>Object.prototype\<close> and the
  object \<^verbatim>\<open>Function.prototype\<close>, between the function and \<^verbatim>\<open>Object.prototype\<close> on
  its chain, are left out: no path of the examples names them.
\<close>

definition heap_empty_entity :: heap where
  "heap_empty_entity =
     [\<lparr>props = [(''toString'', Ref 1)], proto = None, callable = False\<rparr>,
      \<lparr>props = [], proto = Some 0, callable = True\<rparr>,
      \<lparr>props = [], proto = Some 0, callable = False\<rparr>]"




text \<open>The cyclic entity of \<^verbatim>\<open>const e = {}; e.a = e\<close> at address 2.\<close>

definition heap_cyclic_entity :: heap where
  "heap_cyclic_entity =
     [\<lparr>props = [(''toString'', Ref 1)], proto = None, callable = False\<rparr>,
      \<lparr>props = [], proto = Some 0, callable = True\<rparr>,
      \<lparr>props = [(''a'', Ref 2)], proto = Some 0, callable = False\<rparr>]"

section \<open>\<^verbatim>\<open>nameof\<close>\<close>

lemma apply_selector_string_keys:
  "string_keys sel \<Longrightarrow> apply_selector sel SProxy path = (Inr SProxy, path @ names sel)"
proof (induction sel arbitrary: path)
  case Nil
  then show ?case by (simp add: names_def)
next
  case (Cons a sel)
  then show ?case
    by (cases a; cases "access_key a")
       (auto simp: proxyMagic_get_def string_keys_def names_def)
qed

lemma apply_selector_append:
  "string_keys pre \<Longrightarrow>
   apply_selector (pre @ rest) SProxy path = apply_selector rest SProxy (path @ names pre)"
proof (induction pre arbitrary: path)
  case Nil
  then show ?case by (simp add: names_def)
next
  case (Cons a pre)
  then show ?case
    by (cases a; cases "access_key a")
       (auto simp: proxyMagic_get_def string_keys_def names_def)
qed

lemma apply_selector_symbol:
  "\<not> is_string_key (access_key a) \<Longrightarrow>
   apply_selector (a # post) SProxy path =
     (Inl (TypeError ''Entity contains a non-string key type.''), path)"
  by (cases a; cases "access_key a") (auto simp: proxyMagic_get_def)

lemma first_non_string_key:
  "\<not> string_keys sel \<Longrightarrow>
   \<exists>pre a post. sel = pre @ a # post \<and> string_keys pre \<and> \<not> is_string_key (access_key a)"
proof (induction sel)
  case Nil
  then show ?case by (simp add: string_keys_def)
next
  case (Cons x sel)
  show ?case
  proof (cases "is_string_key (access_key x)")
    case False
    then have "x # sel = [] @ x # sel \<and> string_keys [] \<and> \<not> is_string_key (access_key x)"
      by (simp add: string_keys_def)
    then show ?thesis by blast
  next
    case True
    with Cons.prems have "\<not> string_keys sel" by (simp add: string_keys_def)
    with Cons.IH obtain pre a post
      where "sel = pre @ a # post" "string_keys pre" "\<not> is_string_key (access_key a)"
      by blast
    with True have "x # sel = (x # pre) @ a # post \<and> string_keys (x # pre)
        \<and> \<not> is_string_key (access_key a)"
      by (simp add: string_keys_def)
    then show ?thesis by blast
  qed
qed

text \<open>
  C7. A selector that is a chain of \<open>k\<close> accesses with string keys, plain or
  null-propagating, gives the \<open>k\<close> names in the order of the accesses. A proxy is
  never nullish, so \<^verbatim>\<open>?.\<close> never cuts the chain short: two selectors with the same
  keys give the same path, whatever the style of each access.
\<close>

theorem nameof_strict_chain:
  assumes "string_keys sel"
  shows "nameof sel = Inr (names sel) \<and> length (names sel) = length sel
    \<and> (map access_key sel' = map access_key sel \<longrightarrow> nameof sel' = nameof sel)"
proof -
  have eq: "nameof s = Inr (names s)" if "string_keys s" for s
    using apply_selector_string_keys [OF that, of "[]"] by (simp add: nameof_def)
  have sk: "string_keys s = list_all is_string_key (map access_key s)" for s
    by (simp add: string_keys_def list.pred_map comp_def)
  have nm: "names s = map key_name (map access_key s)" for s
    by (simp add: names_def)
  have "nameof sel' = nameof sel" if same: "map access_key sel' = map access_key sel"
  proof -
    have "string_keys sel' = string_keys sel" and "names sel' = names sel"
      by (simp_all only: sk nm same)
    with assms eq show ?thesis by simp
  qed
  with eq [OF assms] show ?thesis by (simp add: names_def)
qed

theorem nameof_strict_chain_witness:
  "string_keys [Dot (StringKey ''a''), OptDot (StringKey ''b''), OptDot (StringKey ''c'')]
   \<and> nameof [Dot (StringKey ''a''), OptDot (StringKey ''b''), OptDot (StringKey ''c'')]
       = Inr [''a'', ''b'', ''c'']
   \<and> nameof [Dot (StringKey ''a''), Dot (StringKey ''b''), Dot (StringKey ''c'')]
       = nameof [Dot (StringKey ''a''), OptDot (StringKey ''b''), OptDot (StringKey ''c'')]"
proof -
  have h: "string_keys [Dot (StringKey ''a''), OptDot (StringKey ''b''), OptDot (StringKey ''c'')]"
    by (simp add: string_keys_def)
  show ?thesis
    using h nameof_strict_chain [OF h,
        of "[Dot (StringKey ''a''), Dot (StringKey ''b''), Dot (StringKey ''c'')]"]
    by (simp add: names_def)
qed

text \<open>
  C8. A selector that accesses a key that is not a string makes \<^verbatim>\<open>nameof\<close> fail
  with the \<^verbatim>\<open>TypeError\<close> of the trap, at the first such access: the array then
  holds the names of the accesses before it, the accesses after it do not run, and
  the caller gets the error and no path.
\<close>

theorem nameof_non_string_key:
  assumes "\<not> string_keys sel"
  shows "nameof sel = Inl (TypeError ''Entity contains a non-string key type.'')
    \<and> (\<exists>pre a post. sel = pre @ a # post \<and> string_keys pre
          \<and> \<not> is_string_key (access_key a)
          \<and> apply_selector sel SProxy [] =
              (Inl (TypeError ''Entity contains a non-string key type.''), names pre))"
proof -
  from first_non_string_key [OF assms] obtain pre a post
    where sel: "sel = pre @ a # post" and pre: "string_keys pre"
      and a: "\<not> is_string_key (access_key a)"
    by blast
  have run: "apply_selector sel SProxy [] =
      (Inl (TypeError ''Entity contains a non-string key type.''), names pre)"
    using apply_selector_append [OF pre, of "a # post" "[]"] apply_selector_symbol [OF a]
    by (simp add: sel)
  then have "nameof sel = Inl (TypeError ''Entity contains a non-string key type.'')"
    by (simp add: nameof_def)
  with sel pre a run show ?thesis by blast
qed

theorem nameof_non_string_key_witness:
  "\<not> string_keys [Dot (StringKey ''a''), Dot (SymbolKey 0), Dot (StringKey ''b'')]
   \<and> nameof [Dot (StringKey ''a''), Dot (SymbolKey 0), Dot (StringKey ''b'')]
       = Inl (TypeError ''Entity contains a non-string key type.'')"
proof -
  have h: "\<not> string_keys [Dot (StringKey ''a''), Dot (SymbolKey 0), Dot (StringKey ''b'')]"
    by (simp add: string_keys_def)
  show ?thesis
    using h nameof_non_string_key [OF h] by simp
qed

section \<open>\<^verbatim>\<open>set\<close> with the empty path\<close>

text \<open>
  C10. With the empty path the loop of \<^verbatim>\<open>set\<close> has no iteration: the call returns
  without an error and the heap, so the entity and all it refers to, is as before.
\<close>

theorem set_empty_path_noop: "set_path h e (Path []) v = (Inr (), h)"
  by (simp add: set_path_def)

section \<open>\<^verbatim>\<open>get\<close>\<close>

lemma get_loop_Undefined: "get_loop h Undefined p = Undefined"
  by (cases p) (simp_all add: object_like_def loose_null_def)

lemma get_loop_append: "get_loop h x (pre @ rest) = get_loop h (get_loop h x pre) rest"
  by (induction pre arbitrary: x) (simp_all add: Let_def get_loop_Undefined)



lemma lookup_chain_None:
  "\<forall>b\<in>set cs. own h b key = None \<Longrightarrow> lookup_chain h cs key = None"
  by (induction cs) (simp_all add: own_def)

lemma lookup_chain_first:
  "\<forall>c\<in>set xs. own h c key = None \<Longrightarrow> own h b key = Some w \<Longrightarrow>
   lookup_chain h (xs @ b # ys) key = Some w"
  by (induction xs) (simp_all add: own_def)



text \<open>
  The entity \<^verbatim>\<open>{}\<close> does not own \<^verbatim>\<open>toString\<close>, and \<^verbatim>\<open>get\<close> finds it: the operator
  \<^verbatim>\<open>in\<close> of line 145 looks through the prototype chain.
\<close>

theorem get_own_property_counterexample:
  "object_like heap_empty_entity (Ref 2)
   \<and> own heap_empty_entity 2 ''toString'' = None
   \<and> get heap_empty_entity 2 (Path [''toString'']) \<noteq> Inr Undefined"
  by code_simp

text \<open>
  C2, as the code has it. When the traversal is at an object-like value and neither
  the object nor any object of its prototype chain owns the next key, \<^verbatim>\<open>get\<close>
  reports \<^verbatim>\<open>undefined\<close>. When an object of the chain owns it, the object itself or a
  prototype, the traversal goes on with the value of the first owner: an inherited
  property is found, as \<^verbatim>\<open>selector(entity)\<close> would find it.
\<close>

theorem get_reads_prototype_chain:
  assumes "get_loop h (Ref e) pre = cur" and "object_like h cur"
  shows "((\<forall>b\<in>set (proto_chain h (safeCast cur)). own h b key = None)
            \<longrightarrow> get h e (Path (pre @ key # rest)) = Inr Undefined)
       \<and> (proto_chain h (safeCast cur) = xs @ b # ys
            \<and> (\<forall>c\<in>set xs. own h c key = None) \<and> own h b key = Some w
            \<longrightarrow> get h e (Path (pre @ key # rest)) = Inr (get_loop h w rest))"
proof -
  have run: "get h e (Path (pre @ key # rest)) = Inr (get_loop h cur (key # rest))"
    using assms(1) by (simp add: get_def get_loop_append del: get_loop.simps)
  have none: "get_loop h cur (key # rest) = Undefined"
    if "\<forall>b\<in>set (proto_chain h (safeCast cur)). own h b key = None"
    using lookup_chain_None [OF that] assms(2)
    by (simp add: has_property_def get_property_def)
  have first: "get_loop h cur (key # rest) = get_loop h w rest"
    if "proto_chain h (safeCast cur) = xs @ b # ys"
      and "\<forall>c\<in>set xs. own h c key = None" and "own h b key = Some w"
    using lookup_chain_first [OF that(2,3), of ys] that(1) assms(2)
    by (simp add: has_property_def get_property_def get_value_def)
  from run none first show ?thesis by simp
qed

theorem get_reads_prototype_chain_witness:
  "get_loop heap_empty_entity (Ref 2) [] = Ref 2 \<and> object_like heap_empty_entity (Ref 2)
   \<and> proto_chain heap_empty_entity (safeCast (Ref 2)) = [2] @ 0 # []
   \<and> own heap_empty_entity 2 ''a'' = None \<and> own heap_empty_entity 0 ''a'' = None
   \<and> get heap_empty_entity 2 (Path [''a'', ''b'']) = Inr Undefined
   \<and> own heap_empty_entity 2 ''toString'' = None
   \<and> own heap_empty_entity 0 ''toString'' = Some (Ref 1)
   \<and> get heap_empty_entity 2 (Path [''toString'']) = Inr (Ref 1)"
proof -
  have h1: "get_loop heap_empty_entity (Ref 2) [] = Ref 2" by simp
  have h2: "object_like heap_empty_entity (Ref 2)" by code_simp
  have h3: "proto_chain heap_empty_entity (safeCast (Ref 2)) = [2] @ 0 # []" by code_simp
  have h4: "\<forall>b\<in>set (proto_chain heap_empty_entity (safeCast (Ref 2))).
      own heap_empty_entity b ''a'' = None"
    unfolding h3 by code_simp
  have h5: "\<forall>c\<in>set [2]. own heap_empty_entity c ''toString'' = None" by code_simp
  have h6: "own heap_empty_entity 0 ''toString'' = Some (Ref 1)" by code_simp
  show ?thesis
    using h1 h2 h3 h4 h5 h6
      get_reads_prototype_chain [OF h1 h2, of "''a''" "[''b'']"]
      get_reads_prototype_chain [OF h1 h2, of "''toString''" "[]" "[2]" 0 "[]" "Ref 1"]
    by simp
qed

section \<open>The steps of \<^verbatim>\<open>set\<close>\<close>

lemma length_put_value [simp]: "length (put_value h a key v) = length h"
  by (simp add: put_value_def)



lemma proto_put_value [simp]: "proto (put_value h a key v ! b) = proto (h ! b)"
  by (cases "b = a"; cases "a < length h") (simp_all add: put_value_def list_update_beyond)

lemma callable_put_value [simp]: "callable (put_value h a key v ! b) = callable (h ! b)"
  by (cases "b = a"; cases "a < length h") (simp_all add: put_value_def list_update_beyond)

lemma descend_cases:
  assumes "descend path h object key = (r, h1)"
  obtains
    (descended) "object_like h (get_value h object key)"
      "r = Inr (safeCast (get_value h object key))" "h1 = h"
  | (created) "\<not> object_like h (get_value h object key)" "loose_null (get_value h object key)"
      "r = Inr (length h)" "h1 = put_value (h @ [new_object]) object key (Ref (length h))"
  | (conflict) "\<not> object_like h (get_value h object key)"
      "\<not> loose_null (get_value h object key)"
      "r = Inl (TypeError (conflict_message path))" "h1 = h"
proof (cases "object_like h (get_value h object key)")
  case True
  with assms have "r = Inr (safeCast (get_value h object key))" "h1 = h"
    by (auto simp: descend_def)
  with True show ?thesis by (rule descended)
next
  case False
  show ?thesis
  proof (cases "loose_null (get_value h object key)")
    case True
    with False assms have "r = Inr (length h)"
      "h1 = put_value (h @ [new_object]) object key (Ref (length h))"
      by (auto simp: descend_def Let_def)
    with False True show ?thesis by (rule created)
  next
    case nonnull: False
    with False assms have "r = Inl (TypeError (conflict_message path))" "h1 = h"
      by (auto simp: descend_def)
    with False nonnull show ?thesis by (rule conflict)
  qed
qed


lemma set_loop_walk:
  "keys \<noteq> [] \<Longrightarrow>
   set_loop path h object keys v =
     (case walk path h object (butlast keys) of
        (Inl e, h') \<Rightarrow> (Inl e, h')
      | (Inr object', h') \<Rightarrow> (Inr (), put_value h' object' (last keys) v))"
  by (induction path h object keys v rule: set_loop.induct)
     (auto split: prod.splits sum.splits)

lemma walk_error:
  "walk path h object keys = (Inl err, h') \<Longrightarrow>
   err = TypeError (conflict_message path) \<and>
   (\<exists>pre key post object1. keys = pre @ key # post
      \<and> walk path h object pre = (Inr object1, h')
      \<and> \<not> object_like h' (get_value h' object1 key)
      \<and> \<not> loose_null (get_value h' object1 key))"
proof (induction keys arbitrary: h object)
  case Nil
  then show ?case by simp
next
  case (Cons key keys)
  obtain r h1 where d: "descend path h object key = (r, h1)"
    by (cases "descend path h object key")
  show ?case
  proof (cases r)
    case (Inl e)
    with d Cons.prems have e: "e = err" "h1 = h'" by simp_all
    from d Inl have "\<not> object_like h (get_value h object key)"
      "\<not> loose_null (get_value h object key)" "e = TypeError (conflict_message path)" "h1 = h"
      by (auto elim: descend_cases)
    with e have "err = TypeError (conflict_message path)"
      and "key # keys = [] @ key # keys \<and> walk path h object [] = (Inr object, h')
        \<and> \<not> object_like h' (get_value h' object key)
        \<and> \<not> loose_null (get_value h' object key)"
      by simp_all
    then show ?thesis by blast
  next
    case (Inr object1)
    with d Cons.prems have "walk path h1 object1 keys = (Inl err, h')" by simp
    from Cons.IH [OF this] obtain pre k post object2
      where err: "err = TypeError (conflict_message path)"
        and "keys = pre @ k # post" "walk path h1 object1 pre = (Inr object2, h')"
        "\<not> object_like h' (get_value h' object2 k)" "\<not> loose_null (get_value h' object2 k)"
      by blast
    with d Inr have "key # keys = (key # pre) @ k # post
        \<and> walk path h object (key # pre) = (Inr object2, h')
        \<and> \<not> object_like h' (get_value h' object2 k)
        \<and> \<not> loose_null (get_value h' object2 k)"
      by simp
    with err show ?thesis by blast
  qed
qed




text \<open>
  C9. When \<^verbatim>\<open>set\<close> raises the conflict error, the heap is the one the walk had
  reached at the conflicting element: every container created and every link
  written on the way there is still in place, nothing is rolled back.
\<close>

theorem set_error_keeps_mutations:
  assumes "set_path h e (Path p) v = (Inl err, h')"
  shows "err = TypeError (conflict_message p)
    \<and> (\<exists>pre key post object. butlast p = pre @ key # post
          \<and> walk p h e pre = (Inr object, h')
          \<and> \<not> object_like h' (get_value h' object key)
          \<and> \<not> loose_null (get_value h' object key))"
proof -
  from assms have p: "p \<noteq> []" by (auto simp: set_path_def)
  with assms have "walk p h e (butlast p) = (Inl err, h')"
    by (auto simp: set_path_def set_loop_walk split: prod.splits sum.splits)
  from walk_error [OF this] show ?thesis .
qed

theorem set_error_keeps_mutations_witness:
  "set_path heap_empty_entity 2 (Path [''a'', ''toString'', ''c'']) (Num 1) =
     (Inl (TypeError ''Path [a,toString,c] conflicts with the entity structure.''),
      [\<lparr>props = [(''toString'', Ref 1)], proto = None, callable = False\<rparr>,
       \<lparr>props = [], proto = Some 0, callable = True\<rparr>,
       \<lparr>props = [(''a'', Ref 3)], proto = Some 0, callable = False\<rparr>,
       \<lparr>props = [], proto = Some 0, callable = False\<rparr>])
   \<and> (\<exists>pre key post object. butlast [''a'', ''toString'', ''c''] = pre @ key # post
        \<and> walk [''a'', ''toString'', ''c''] heap_empty_entity 2 pre =
            (Inr object,
             [\<lparr>props = [(''toString'', Ref 1)], proto = None, callable = False\<rparr>,
              \<lparr>props = [], proto = Some 0, callable = True\<rparr>,
              \<lparr>props = [(''a'', Ref 3)], proto = Some 0, callable = False\<rparr>,
              \<lparr>props = [], proto = Some 0, callable = False\<rparr>]))"
proof -
  have run: "set_path heap_empty_entity 2 (Path [''a'', ''toString'', ''c'']) (Num 1) =
     (Inl (TypeError ''Path [a,toString,c] conflicts with the entity structure.''),
      [\<lparr>props = [(''toString'', Ref 1)], proto = None, callable = False\<rparr>,
       \<lparr>props = [], proto = Some 0, callable = True\<rparr>,
       \<lparr>props = [(''a'', Ref 3)], proto = Some 0, callable = False\<rparr>,
       \<lparr>props = [], proto = Some 0, callable = False\<rparr>])"
    by code_simp
  from set_error_keeps_mutations [OF run] run show ?thesis by blast
qed

section \<open>Heaps without dangling references\<close>
















section \<open>Containers created by \<^verbatim>\<open>set\<close>\<close>





section \<open>What \<^verbatim>\<open>set\<close> leaves as it is\<close>







section \<open>Values the walk does not touch\<close>













section \<open>Reading back what \<^verbatim>\<open>set\<close> wrote\<close>








text \<open>
  Two more ways to lose the value. In the cyclic entity \<^verbatim>\<open>e.a = e\<close>, the last
  assignment of \<^verbatim>\<open>set(e, ["a","a"], 5)\<close> overwrites the link the walk came through.
  An entity that is a function takes the property, and \<^verbatim>\<open>get\<close> does not look into
  it: its \<^verbatim>\<open>typeof\<close> is not \<^verbatim>\<open>"object"\<close>.
\<close>

lemma set_get_cyclic_entity:
  "set_path heap_cyclic_entity 2 (Path [''a'', ''a'']) (Num 5) =
     (Inr (),
      [\<lparr>props = [(''toString'', Ref 1)], proto = None, callable = False\<rparr>,
       \<lparr>props = [], proto = Some 0, callable = True\<rparr>,
       \<lparr>props = [(''a'', Num 5)], proto = Some 0, callable = False\<rparr>])
   \<and> get [\<lparr>props = [(''toString'', Ref 1)], proto = None, callable = False\<rparr>,
           \<lparr>props = [], proto = Some 0, callable = True\<rparr>,
           \<lparr>props = [(''a'', Num 5)], proto = Some 0, callable = False\<rparr>]
        2 (Path [''a'', ''a'']) = Inr Undefined"
  by code_simp

lemma set_get_function_entity:
  "set_path heap_empty_entity 1 (Path [''a'']) (Num 1) =
     (Inr (),
      [\<lparr>props = [(''toString'', Ref 1)], proto = None, callable = False\<rparr>,
       \<lparr>props = [(''a'', Num 1)], proto = Some 0, callable = True\<rparr>,
       \<lparr>props = [], proto = Some 0, callable = False\<rparr>])
   \<and> get [\<lparr>props = [(''toString'', Ref 1)], proto = None, callable = False\<rparr>,
           \<lparr>props = [(''a'', Num 1)], proto = Some 0, callable = True\<rparr>,
           \<lparr>props = [], proto = Some 0, callable = False\<rparr>]
        1 (Path [''a'']) = Inr Undefined"
  by code_simp



end
